theory Spec2Isabelle
  imports Complex_Main "HOL-Library.Word"
begin

section \<open>withings-sync: the orchestrator \<open>sync\<close> of \<open>withings_sync/sync.py\<close>\<close>

text \<open>
  The function \<open>sync\<close> fetches measurement groups from the Withings account, drives a
  \<open>FitEncoder_Weight\<close> through one encoding, and hands the finished buffer to standard
  output or to Garmin Connect. Its collaborators (\<open>withings2\<close>, \<open>fit\<close>, \<open>garmin\<close>,
  \<open>trainerroad\<close>) are other modules: the model records every call made on them as an
  event of a trace, in program order, and takes the answers they give as a record.

  Conventions of the model:
  \<^item> a Python \<open>float\<close> is a \<open>real\<close> (exact arithmetic: rounding error, infinities and
    NaN of IEEE doubles are outside the model); \<open>None\<close> is \<open>None\<close> of \<open>option\<close>;
  \<^item> a \<open>datetime\<close> is the integer number of seconds it stands for, so that \<open>dt > last_dt\<close>
    is \<open><\<close> on \<open>int\<close>; a \<open>date\<close> argument \<open>d\<close> is the integer
    \<open>int(time.mktime(d.timetuple()))\<close>;
  \<^item> a raised exception is \<open>Inl\<close> of a sum type; the collaborators themselves are taken
    to return normally.
\<close>

subsection \<open>Python values\<close>

type_synonym datetime = int
type_synonym bytes = "8 word list"

datatype py_error = ZeroDivisionError

text \<open>Truth value of \<open>x\<close> in \<open>if x\<close>, for a float-or-None and for a str-or-None.\<close>

definition truthy :: "real option \<Rightarrow> bool" where
  "truthy x = (case x of None \<Rightarrow> False | Some v \<Rightarrow> v \<noteq> 0)"

definition truthy_str :: "string option \<Rightarrow> bool" where
  "truthy_str s = (case s of None \<Rightarrow> False | Some v \<Rightarrow> v \<noteq> [])"

text \<open>\<open>a / b\<close> on floats raises \<open>ZeroDivisionError\<close> when \<open>b\<close> is zero.\<close>

definition py_truediv :: "real \<Rightarrow> real \<Rightarrow> py_error + real" where
  "py_truediv a b = (if b = 0 then Inl ZeroDivisionError else Inr (a / b))"

text \<open>\<open>round(x, 1)\<close>: to one decimal place, a tie going to the even digit.\<close>

definition py_round1 :: "real \<Rightarrow> real" where
  "py_round1 x =
     (let y = x * 10; f = \<lfloor>y\<rfloor>; d = y - of_int f
      in of_int (if d < 1 / 2 then f
                 else if 1 / 2 < d then f + 1
                 else if even f then f else f + 1) / 10)"

subsection \<open>Measurement groups, encoder calls, events\<close>

text \<open>A \<open>WithingsMeasureGroup\<close>, by what its getters return.\<close>

record measure_group =
  get_datetime :: datetime
  get_weight :: "real option"
  get_fat_ratio :: "real option"
  get_muscle_mass :: "real option"
  get_hydration :: "real option"
  get_bone_mass :: "real option"
  get_raw_data :: "string list"

text \<open>The keyword arguments of one \<open>fit.write_weight_scale(...)\<close> call.\<close>

record weight_scale =
  ws_timestamp :: datetime
  ws_weight :: real
  ws_percent_fat :: "real option"
  ws_percent_hydration :: "real option"
  ws_bone_mass :: "real option"
  ws_muscle_mass :: "real option"
  ws_bmi :: "real option"

datatype fit_call =
    Write_file_info
  | Write_file_creator
  | Write_device_info datetime
  | Write_weight_scale weight_scale
  | Finish
  | Getvalue

datatype level = DEBUG | INFO | ERROR

text \<open>
  One event per call that leaves \<open>sync\<close>. \<open>Log\<close> keeps the level and the message
  template (its formatted arguments are not part of the model).
\<close>

datatype event =
    Basic_config level
  | Log level string
  | Withings_account string
  | Get_last_sync
  | Get_height
  | Get_measurements int int
  | Fit_new
  | Fit fit_call
  | Stdout_write bytes
  | TR_connect "string option" "string option"
  | TR_set_weight real
  | TR_disconnect
  | Garmin_login "string option" "string option"
  | Garmin_upload bytes
  | Set_last_sync

text \<open>
  What the collaborators answer during one run: the constant \<open>Withings.USER_CONFIG\<close>,
  the stored bookmark, the height, the groups, and the truth value of what
  \<open>garmin.upload_file\<close> returns.

  Modelled from the spec: \<open>getvalue\<close> stands for the class \<open>FitEncoder_Weight\<close> of
  \<open>withings_sync/fit.py\<close>, which is not part of the sources at hand. The
  specification (sections 2 and 5) makes the encoder a pure in-memory builder that
  never initiates I/O, so the buffer it returns is a function of the calls it has
  received, in order; which bytes it returns is left open.
\<close>

record world =
  USER_CONFIG :: string
  getLastSync :: int
  getHeight :: "real option"
  getMeasurements :: "measure_group list option"
  getvalue :: "fit_call list \<Rightarrow> bytes"
  upload_file :: bool

text \<open>The arguments of \<open>sync\<close>.\<close>

record args =
  withings_user :: "string option"
  garmin_username :: "string option"
  garmin_password :: "string option"
  trainerroad_username :: "string option"
  trainerroad_password :: "string option"
  fromdate :: "int option"
  todate :: int
  no_upload :: bool
  verbose :: bool

subsection \<open>The loop over the groups (lines 113 to 164)\<close>

text \<open>
  Lines 133 to 136. The weight reaching this point is a float (line 126 has filtered
  \<open>None\<close>), and \<open>the height\<close> is read only where \<open>truthy height\<close> holds.
\<close>

definition compute_bmi :: "real option \<Rightarrow> real \<Rightarrow> py_error + real option" where
  "compute_bmi height weight =
     (if truthy height \<and> truthy (Some weight)
      then (case py_truediv weight (the height ^ 2) of
              Inl e \<Rightarrow> Inl e
            | Inr q \<Rightarrow> Inr (Some (py_round1 q)))
      else Inr None)"

text \<open>Lines 138 to 141.\<close>

definition compute_percent_hydration :: "real option \<Rightarrow> real \<Rightarrow> py_error + real option" where
  "compute_percent_hydration hydration weight =
     (if truthy hydration \<and> truthy (Some weight)
      then (case py_truediv (the hydration * 100) weight of
              Inl e \<Rightarrow> Inl e
            | Inr q \<Rightarrow> Inr (Some q))
      else Inr None)"

record loop_state =
  trace :: "event list"
  last_dt :: "datetime option"
  last_weight :: "real option"

definition no_weight_log :: "measure_group \<Rightarrow> event list" where
  "no_weight_log grp =
     [Log INFO ''This Withings metric contains no weight data.  Not syncing...'',
      Log DEBUG ''Detected data: ''] @ map (Log DEBUG) (get_raw_data grp)"

definition record_log :: event where
  "record_log =
     Log DEBUG ''Record: %s weight=%s kg, fat_ratio=%s %%, muscle_mass=%s kg, hydration=%s %%, bone_mass=%s kg, bmi=%s''"

text \<open>
  One iteration of \<open>for group in groups\<close> (the variable is written \<open>grp\<close>, the name
  \<open>group\<close> being taken in HOL). An iteration that raises leaves no state behind.
\<close>

definition loop_body :: "real option \<Rightarrow> measure_group \<Rightarrow> loop_state \<Rightarrow> py_error + loop_state" where
  "loop_body height grp st =
     (let dt = get_datetime grp in
      case get_weight grp of
        None \<Rightarrow> Inr (st\<lparr>trace := trace st @ no_weight_log grp\<rparr>)
      | Some weight \<Rightarrow>
          (case compute_bmi height weight of
             Inl e \<Rightarrow> Inl e
           | Inr bmi \<Rightarrow>
               (case compute_percent_hydration (get_hydration grp) weight of
                  Inl e \<Rightarrow> Inl e
                | Inr percent_hydration \<Rightarrow>
                    let t = trace st @
                          [Fit (Write_device_info dt),
                           Fit (Write_weight_scale
                                  \<lparr>ws_timestamp = dt,
                                   ws_weight = weight,
                                   ws_percent_fat = get_fat_ratio grp,
                                   ws_percent_hydration = percent_hydration,
                                   ws_bone_mass = get_bone_mass grp,
                                   ws_muscle_mass = get_muscle_mass grp,
                                   ws_bmi = bmi\<rparr>),
                           record_log]
                    in if (case last_dt st of None \<Rightarrow> True | Some l \<Rightarrow> l < dt)
                       then Inr \<lparr>trace = t, last_dt = Some dt, last_weight = Some weight\<rparr>
                       else Inr (st\<lparr>trace := t\<rparr>))))"

fun for_groups :: "real option \<Rightarrow> measure_group list \<Rightarrow> loop_state \<Rightarrow> py_error + loop_state" where
  "for_groups height [] st = Inr st"
| "for_groups height (grp # groups) st =
     (case loop_body height grp st of
        Inl e \<Rightarrow> Inl e
      | Inr st' \<Rightarrow> for_groups height groups st')"

subsection \<open>The three parts of \<open>sync\<close>\<close>

text \<open>Lines 80 to 100: logging set-up, the account, the period, height and groups.\<close>

definition fetch :: "world \<Rightarrow> args \<Rightarrow> event list" where
  "fetch w a =
     (let t0 = [Basic_config (if verbose a then DEBUG else INFO)];
          t1 = t0 @ [Withings_account
                      (if truthy_str (withings_user a) then the (withings_user a)
                       else USER_CONFIG w)];
          t2 = (case fromdate a of None \<Rightarrow> t1 @ [Get_last_sync] | Some d \<Rightarrow> t1);
          startdate = (case fromdate a of None \<Rightarrow> getLastSync w | Some d \<Rightarrow> d);
          enddate = todate a + 86399
      in t2 @ [Log INFO ''Fetching measurements from %s to %s'',
               Get_height,
               Get_measurements startdate enddate])"

text \<open>Lines 107 to 166: one encoding, from the constructor to \<open>fit.finish()\<close>.\<close>

definition encode :: "real option \<Rightarrow> measure_group list \<Rightarrow> event list \<Rightarrow> py_error + loop_state" where
  "encode height groups t =
     (case for_groups height groups
             \<lparr>trace = t @ [Log DEBUG ''Generating fit file...'',
                           Fit_new, Fit Write_file_info, Fit Write_file_creator],
              last_dt = None, last_weight = None\<rparr> of
        Inl e \<Rightarrow> Inl e
      | Inr st \<Rightarrow> Inr (st\<lparr>trace := trace st @ [Fit Finish]\<rparr>))"

text \<open>The calls the encoder has received so far, oldest first.\<close>

fun fit_calls :: "event list \<Rightarrow> fit_call list" where
  "fit_calls [] = []"
| "fit_calls (Fit c # es) = c # fit_calls es"
| "fit_calls (e # es) = fit_calls es"

text \<open>
  Lines 168 to 209: what happens to the finished buffer. The result is the trace and
  the value returned: \<open>Some (-1)\<close>, \<open>Some 0\<close>, or \<open>None\<close> when the function falls off
  its end.
\<close>

definition deliver :: "world \<Rightarrow> args \<Rightarrow> loop_state \<Rightarrow> event list \<times> int option" where
  "deliver w a st =
     (case last_weight st of
        None \<Rightarrow> (trace st @ [Log ERROR ''Invalid weight''], Some (- 1))
      | Some lw \<Rightarrow>
          if no_upload a
          then (trace st @ [Fit Getvalue, Stdout_write (getvalue w (fit_calls (trace st)))], Some 0)
          else
            let t1 = (if truthy_str (trainerroad_username a)
                      then trace st @
                           [Log INFO ''Trainerroad username set -- attempting to sync'',
                            Log INFO '' Last weight {}'',
                            Log INFO '' Measured {}'',
                            TR_connect (trainerroad_username a) (trainerroad_password a),
                            Log INFO ''Current TrainerRoad weight: {tr.weight} kg '',
                            Log INFO ''Updating TrainerRoad weight to {last_weight} kg'',
                            TR_set_weight (py_round1 lw),
                            TR_disconnect,
                            Log INFO ''TrainerRoad update done!'']
                      else trace st @
                           [Log INFO ''No Trainerroad username or a new measurement - skipping sync''])
            in if truthy_str (garmin_username a)
               then
                 let t2 = t1 @ [Garmin_login (garmin_username a) (garmin_password a),
                                Log DEBUG ''attempting to upload fit file...'',
                                Fit Getvalue,
                                Garmin_upload (getvalue w (fit_calls t1))]
                 in if upload_file w
                    then ((if fromdate a = None then t2 @ [Set_last_sync] else t2)
                          @ [Log INFO ''Fit file uploaded to Garmin Connect''], None)
                    else (t2, None)
               else (t1 @ [Log INFO ''No Garmin username - skipping sync''], None))"

text \<open>\<open>sync\<close>, whole.\<close>

definition sync :: "world \<Rightarrow> args \<Rightarrow> py_error + event list \<times> int option" where
  "sync w a =
     (let t = fetch w a in
      case getMeasurements w of
        None \<Rightarrow> Inr (t @ [Log ERROR ''No measurements to upload for date or period specified''], Some (- 1))
      | Some groups \<Rightarrow>
          if length groups = 0
          then Inr (t @ [Log ERROR ''No measurements to upload for date or period specified''], Some (- 1))
          else (case encode (getHeight w) groups t of
                  Inl e \<Rightarrow> Inl e
                | Inr st \<Rightarrow> Inr (deliver w a st)))"

subsection \<open>Closed forms of one iteration\<close>

text \<open>
  The derived quantities of lines 133 to 141 as plain values: a BMI or a hydration
  percentage is there exactly when both operands are there and neither is zero.
\<close>

definition bmi_of :: "real option \<Rightarrow> real \<Rightarrow> real option" where
  "bmi_of height weight =
     (case height of
        None \<Rightarrow> None
      | Some h \<Rightarrow> if h = 0 \<or> weight = 0 then None else Some (py_round1 (weight / h ^ 2)))"

definition percent_hydration_of :: "real option \<Rightarrow> real \<Rightarrow> real option" where
  "percent_hydration_of hydration weight =
     (case hydration of
        None \<Rightarrow> None
      | Some hy \<Rightarrow> if hy = 0 \<or> weight = 0 then None else Some (hy * 100 / weight))"

text \<open>The encoder calls one group gives rise to: none, or a device-info and a weight-scale.\<close>

definition group_calls :: "real option \<Rightarrow> measure_group \<Rightarrow> fit_call list" where
  "group_calls height g =
     (case get_weight g of
        None \<Rightarrow> []
      | Some w \<Rightarrow>
          [Write_device_info (get_datetime g),
           Write_weight_scale
             \<lparr>ws_timestamp = get_datetime g,
              ws_weight = w,
              ws_percent_fat = get_fat_ratio g,
              ws_percent_hydration = percent_hydration_of (get_hydration g) w,
              ws_bone_mass = get_bone_mass g,
              ws_muscle_mass = get_muscle_mass g,
              ws_bmi = bmi_of height w\<rparr>])"

definition emitted :: "real option \<Rightarrow> measure_group \<Rightarrow> event list" where
  "emitted height g =
     (case get_weight g of
        None \<Rightarrow> no_weight_log g
      | Some w \<Rightarrow> map Fit (group_calls height g) @ [record_log])"

text \<open>Lines 162 to 164 on the pair \<open>(last_dt, last_weight)\<close>.\<close>

definition step_last :: "datetime option \<times> real option \<Rightarrow> measure_group \<Rightarrow> datetime option \<times> real option" where
  "step_last l g =
     (case get_weight g of
        None \<Rightarrow> l
      | Some w \<Rightarrow>
          if (case fst l of None \<Rightarrow> True | Some d \<Rightarrow> d < get_datetime g)
          then (Some (get_datetime g), Some w)
          else l)"

text \<open>The state in which lines 107 to 166 leave a run over a non-empty list of groups.\<close>

definition encoded_state :: "world \<Rightarrow> args \<Rightarrow> measure_group list \<Rightarrow> loop_state" where
  "encoded_state w a gs =
     \<lparr>trace = fetch w a @ [Log DEBUG ''Generating fit file...'', Fit_new, Fit Write_file_info,
                           Fit Write_file_creator]
              @ concat (map (emitted (getHeight w)) gs) @ [Fit Finish],
      last_dt = fst (foldl step_last (None, None) gs),
      last_weight = snd (foldl step_last (None, None) gs)\<rparr>"

subsection \<open>Vocabulary of the properties\<close>

definition weight_bearing :: "measure_group \<Rightarrow> bool" where
  "weight_bearing g = (get_weight g \<noteq> None)"

text \<open>The timestamps of the device-info calls and the weight-scale records, in call order.\<close>

fun device_info_times :: "fit_call list \<Rightarrow> datetime list" where
  "device_info_times [] = []"
| "device_info_times (Write_device_info d # cs) = d # device_info_times cs"
| "device_info_times (c # cs) = device_info_times cs"

fun weight_scale_calls :: "fit_call list \<Rightarrow> weight_scale list" where
  "weight_scale_calls [] = []"
| "weight_scale_calls (Write_weight_scale r # cs) = r # weight_scale_calls cs"
| "weight_scale_calls (c # cs) = weight_scale_calls cs"

text \<open>
  Events through which a buffer or a weight leaves the program, or the stored
  bookmark changes: reading the buffer out, writing it to standard output, anything
  sent to TrainerRoad or Garmin Connect, and \<open>withings.setLastSync()\<close>.
\<close>

fun hands_out :: "event \<Rightarrow> bool" where
  "hands_out (Fit Getvalue) = True"
| "hands_out (Stdout_write b) = True"
| "hands_out (TR_connect u p) = True"
| "hands_out (TR_set_weight x) = True"
| "hands_out TR_disconnect = True"
| "hands_out (Garmin_login u p) = True"
| "hands_out (Garmin_upload b) = True"
| "hands_out Set_last_sync = True"
| "hands_out e = False"

text \<open>The life of the encoder and of its buffer: construction, calls, and the two sinks.\<close>

fun fit_io :: "event \<Rightarrow> bool" where
  "fit_io Fit_new = True"
| "fit_io (Fit c) = True"
| "fit_io (Stdout_write b) = True"
| "fit_io (Garmin_upload b) = True"
| "fit_io e = False"

text \<open>The buffers that reached a sink, in order.\<close>

fun buffers :: "event list \<Rightarrow> bytes list" where
  "buffers [] = []"
| "buffers (Stdout_write b # es) = b # buffers es"
| "buffers (Garmin_upload b # es) = b # buffers es"
| "buffers (e # es) = buffers es"

text \<open>The calls that write into the encoder (all but the read-out).\<close>

definition writes :: "event list \<Rightarrow> fit_call list" where
  "writes t = filter (\<lambda>c. c \<noteq> Getvalue) (fit_calls t)"


definition percent_hydration_as_specified :: "real option \<Rightarrow> real option \<Rightarrow> real option" where
  "percent_hydration_as_specified hydration weight =
     (case hydration of
        None \<Rightarrow> None
      | Some hy \<Rightarrow> (case weight of None \<Rightarrow> None | Some w \<Rightarrow> Some (hy * 100 / w)))"

text \<open>
  The calls of one encoding: file info, file creator, a device-info and a weight-scale
  for each weight-bearing group in input order, \<open>finish\<close>.
\<close>

definition encoding_calls :: "real option \<Rightarrow> measure_group list \<Rightarrow> fit_call list" where
  "encoding_calls height gs =
     [Write_file_info, Write_file_creator]
     @ concat (map (group_calls height) (filter weight_bearing gs))
     @ [Finish]"

text \<open>The read-out of the finished buffer, with the sink that receives it.\<close>

definition read_out :: "world \<Rightarrow> args \<Rightarrow> measure_group list \<Rightarrow> event list" where
  "read_out w a gs =
     (if \<forall>g\<in>set gs. get_weight g = None then []
      else if no_upload a
      then [Fit Getvalue, Stdout_write (getvalue w (encoding_calls (getHeight w) gs))]
      else if truthy_str (garmin_username a)
      then [Fit Getvalue, Garmin_upload (getvalue w (encoding_calls (getHeight w) gs))]
      else [])"


subsection \<open>The encoder's life cycle\<close>

text \<open>
  Modelled from the spec: the class \<open>FitEncoder_Weight\<close> of \<open>withings_sync/fit.py\<close>
  is not part of the sources at hand. Section 4.3 of the specification gives it the
  states \<open>Empty\<close>, \<open>Building\<close>, \<open>Finalized\<close>: every write is accepted before \<open>finish\<close>
  (a repeated device-info included: "re-defining is legal, not an error"), any write
  and a second \<open>finish\<close> after \<open>finish\<close> fail with an invalid-state error, and
  \<open>getvalue\<close> fails before \<open>finish\<close>.
\<close>

datatype enc_state = Empty | Building | Finalized

datatype enc_error = StateError

definition enc_step :: "enc_state \<Rightarrow> fit_call \<Rightarrow> enc_error + enc_state" where
  "enc_step s c =
     (case s of
        Finalized \<Rightarrow> if c = Getvalue then Inr Finalized else Inl StateError
      | _ \<Rightarrow> if c = Getvalue then Inl StateError
             else if c = Finish then Inr Finalized
             else Inr Building)"

fun enc_run :: "enc_state \<Rightarrow> fit_call list \<Rightarrow> enc_error + enc_state" where
  "enc_run s [] = Inr s"
| "enc_run s (c # cs) = (case enc_step s c of Inl e \<Rightarrow> Inl e | Inr s' \<Rightarrow> enc_run s' cs)"

subsection \<open>Concrete runs\<close>

definition no_measures :: "datetime \<Rightarrow> measure_group" where
  "no_measures dt =
     \<lparr>get_datetime = dt, get_weight = None, get_fat_ratio = None, get_muscle_mass = None,
      get_hydration = None, get_bone_mass = None, get_raw_data = []\<rparr>"

definition weighing :: "datetime \<Rightarrow> real \<Rightarrow> measure_group" where
  "weighing dt w = (no_measures dt)\<lparr>get_weight := Some w\<rparr>"

definition three_groups :: "measure_group list" where
  "three_groups = [weighing 100 70, weighing 200 71, weighing 150 72]"

definition init_state :: loop_state where
  "init_state = \<lparr>trace = [], last_dt = None, last_weight = None\<rparr>"

definition some_world :: "measure_group list option \<Rightarrow> world" where
  "some_world gs =
     \<lparr>USER_CONFIG = ''config/withings_user.json'', getLastSync = 0, getHeight = Some 1.75,
      getMeasurements = gs, getvalue = (\<lambda>cs. []), upload_file = True\<rparr>"

definition some_args :: args where
  "some_args =
     \<lparr>withings_user = None, garmin_username = Some ''u'', garmin_password = Some ''p'',
      trainerroad_username = None, trainerroad_password = None,
      fromdate = None, todate = 0, no_upload = False, verbose = False\<rparr>"

text \<open>Line 162: \<open>last_dt is None or dt > last_dt\<close>.\<close>

definition later_than :: "datetime option \<Rightarrow> datetime \<Rightarrow> bool" where
  "later_than l d = (case l of None \<Rightarrow> True | Some d0 \<Rightarrow> d0 < d)"

section \<open>Properties\<close>

subsection \<open>The loop in closed form\<close>

lemma compute_bmi_eq: "compute_bmi height weight = Inr (bmi_of height weight)"
  by (cases height) (simp_all add: compute_bmi_def bmi_of_def truthy_def py_truediv_def)

lemma compute_percent_hydration_eq:
  "compute_percent_hydration hydration weight = Inr (percent_hydration_of hydration weight)"
  by (cases hydration)
     (simp_all add: compute_percent_hydration_def percent_hydration_of_def truthy_def py_truediv_def)

lemma fit_calls_append: "fit_calls (xs @ ys) = fit_calls xs @ fit_calls ys"
  by (induction xs rule: fit_calls.induct) simp_all

lemma fit_calls_map_Log: "fit_calls (map (Log l) ms) = []"
  by (induction ms) simp_all

lemma fit_calls_map_Fit: "fit_calls (map Fit cs) = cs"
  by (induction cs) simp_all

lemma fit_calls_no_weight_log: "fit_calls (no_weight_log g) = []"
  by (simp add: no_weight_log_def fit_calls_map_Log)

lemma fit_calls_emitted: "fit_calls (emitted height g) = group_calls height g"
  by (cases "get_weight g")
     (simp_all add: emitted_def group_calls_def fit_calls_no_weight_log record_log_def)

lemma loop_body_eq:
  "loop_body height g st =
   Inr \<lparr>trace = trace st @ emitted height g,
        last_dt = fst (step_last (last_dt st, last_weight st) g),
        last_weight = snd (step_last (last_dt st, last_weight st) g)\<rparr>"
  by (cases "get_weight g")
     (simp_all add: loop_body_def compute_bmi_eq compute_percent_hydration_eq Let_def
        emitted_def group_calls_def step_last_def)

lemma for_groups_eq:
  "for_groups height gs st =
   Inr \<lparr>trace = trace st @ concat (map (emitted height) gs),
        last_dt = fst (foldl step_last (last_dt st, last_weight st) gs),
        last_weight = snd (foldl step_last (last_dt st, last_weight st) gs)\<rparr>"
  by (induction gs arbitrary: st) (simp_all add: loop_body_eq)

lemma fit_calls_concat_emitted:
  "fit_calls (concat (map (emitted height) gs)) = concat (map (group_calls height) gs)"
  by (induction gs) (simp_all add: fit_calls_append fit_calls_emitted)

lemma encode_eq:
  "encode height gs t =
   Inr \<lparr>trace = t @ [Log DEBUG ''Generating fit file...'', Fit_new, Fit Write_file_info,
                     Fit Write_file_creator]
                 @ concat (map (emitted height) gs) @ [Fit Finish],
        last_dt = fst (foldl step_last (None, None) gs),
        last_weight = snd (foldl step_last (None, None) gs)\<rparr>"
  by (simp add: encode_def for_groups_eq)

subsection \<open>The hydration division\<close>

text \<open>
  C9. The division \<open>hydration * 100.0 / weight\<close> of line 139 never divides by zero.
  Under the guard of line 138 the divisor is not zero and the division returns; the
  computation of the percentage never raises \<open>ZeroDivisionError\<close>; a group without a
  weight leaves the iteration at line 131, before the division, with nothing but the
  log lines added; and a group whose weight is \<open>0.0\<close> has its weight-scale record
  written with \<open>percent_hydration = None\<close>.
\<close>

theorem hydration_division_never_by_zero:
  "(truthy hydration \<and> truthy (Some weight) \<longrightarrow>
      py_truediv (the hydration * 100) weight = Inr (the hydration * 100 / weight))
   \<and> compute_percent_hydration hydration weight \<noteq> Inl ZeroDivisionError
   \<and> compute_percent_hydration hydration 0 = Inr None
   \<and> (get_weight g = None \<longrightarrow>
        loop_body height g st = Inr (st\<lparr>trace := trace st @ no_weight_log g\<rparr>))
   \<and> (get_weight g0 = Some 0 \<longrightarrow>
        (\<exists>st'. loop_body height g0 st = Inr st' \<and>
           fit_calls (trace st') = fit_calls (trace st) @
             [Write_device_info (get_datetime g0),
              Write_weight_scale
                \<lparr>ws_timestamp = get_datetime g0,
                 ws_weight = 0,
                 ws_percent_fat = get_fat_ratio g0,
                 ws_percent_hydration = None,
                 ws_bone_mass = get_bone_mass g0,
                 ws_muscle_mass = get_muscle_mass g0,
                 ws_bmi = None\<rparr>]))"
proof (intro conjI impI)
  assume "truthy hydration \<and> truthy (Some weight)"
  then show "py_truediv (the hydration * 100) weight = Inr (the hydration * 100 / weight)"
    by (simp add: truthy_def py_truediv_def)
next
  show "compute_percent_hydration hydration weight \<noteq> Inl ZeroDivisionError"
    by (simp add: compute_percent_hydration_eq)
next
  show "compute_percent_hydration hydration 0 = Inr None"
    by (simp add: compute_percent_hydration_def truthy_def)
next
  assume "get_weight g = None"
  then show "loop_body height g st = Inr (st\<lparr>trace := trace st @ no_weight_log g\<rparr>)"
    by (simp add: loop_body_def)
next
  assume z: "get_weight g0 = Some 0"
  have "percent_hydration_of (get_hydration g0) 0 = None"
    by (simp add: percent_hydration_of_def split: option.splits)
  moreover have "bmi_of height 0 = None"
    by (simp add: bmi_of_def split: option.splits)
  ultimately have "group_calls height g0 =
      [Write_device_info (get_datetime g0),
       Write_weight_scale
         \<lparr>ws_timestamp = get_datetime g0, ws_weight = 0, ws_percent_fat = get_fat_ratio g0,
          ws_percent_hydration = None, ws_bone_mass = get_bone_mass g0,
          ws_muscle_mass = get_muscle_mass g0, ws_bmi = None\<rparr>]"
    using z by (simp add: group_calls_def)
  then show "\<exists>st'. loop_body height g0 st = Inr st' \<and>
      fit_calls (trace st') = fit_calls (trace st) @
        [Write_device_info (get_datetime g0),
         Write_weight_scale
           \<lparr>ws_timestamp = get_datetime g0, ws_weight = 0, ws_percent_fat = get_fat_ratio g0,
            ws_percent_hydration = None, ws_bone_mass = get_bone_mass g0,
            ws_muscle_mass = get_muscle_mass g0, ws_bmi = None\<rparr>]"
    by (simp add: loop_body_eq fit_calls_append fit_calls_emitted)
qed

theorem hydration_division_never_by_zero_witness:
  "truthy (Some 35) \<and> truthy (Some 70)
   \<and> py_truediv (35 * 100) 70 = Inr 50
   \<and> get_weight (no_measures 100) = None
   \<and> loop_body (Some 1.75) (no_measures 100) init_state
       = Inr \<lparr>trace = [Log INFO ''This Withings metric contains no weight data.  Not syncing...'',
                       Log DEBUG ''Detected data: ''],
              last_dt = None, last_weight = None\<rparr>
   \<and> get_weight ((weighing 100 0)\<lparr>get_hydration := Some 35\<rparr>) = Some 0
   \<and> (\<exists>st'. loop_body (Some 1.75) ((weighing 100 0)\<lparr>get_hydration := Some 35\<rparr>) init_state = Inr st' \<and>
         map ws_percent_hydration (weight_scale_calls (fit_calls (trace st'))) = [None])"
  using hydration_division_never_by_zero
    [of "Some 35" 70 "no_measures 100" "Some 1.75" init_state
        "(weighing 100 0)\<lparr>get_hydration := Some 35\<rparr>"]
  by (auto simp: truthy_def no_measures_def weighing_def init_state_def no_weight_log_def)

subsection \<open>The last weight\<close>

lemma step_last_weight:
  "get_weight g = Some w \<Longrightarrow>
   step_last l g = (if later_than (fst l) (get_datetime g) then (Some (get_datetime g), Some w) else l)"
  by (simp add: step_last_def later_than_def)

lemma foldl_step_last_pick:
  assumes "\<forall>g\<in>set gs. get_weight g \<noteq> None"
  shows "(foldl step_last l gs = l \<and> (\<forall>x\<in>set gs. \<not> later_than (fst l) (get_datetime x)))
       \<or> (\<exists>pre g post. gs = pre @ g # post
             \<and> foldl step_last l gs = (Some (get_datetime g), get_weight g)
             \<and> (\<forall>x\<in>set pre. get_datetime x < get_datetime g)
             \<and> (\<forall>x\<in>set post. get_datetime x \<le> get_datetime g)
             \<and> later_than (fst l) (get_datetime g))"
  using assms
proof (induction gs arbitrary: l)
  case Nil
  then show ?case by simp
next
  case (Cons a gs)
  then obtain w where w: "get_weight a = Some w" by auto
  let ?l1 = "step_last l a"
  have all: "\<forall>g\<in>set gs. get_weight g \<noteq> None" using Cons.prems by simp
  note IH = Cons.IH [OF all, of ?l1]
  show ?case
  proof (cases "later_than (fst l) (get_datetime a)")
    case True
    then have l1: "?l1 = (Some (get_datetime a), Some w)" using w by (simp add: step_last_weight)
    from IH show ?thesis
    proof
      assume h: "foldl step_last ?l1 gs = ?l1 \<and> (\<forall>x\<in>set gs. \<not> later_than (fst ?l1) (get_datetime x))"
      then have "\<forall>x\<in>set gs. get_datetime x \<le> get_datetime a"
        by (auto simp: l1 later_than_def)
      moreover have "foldl step_last l (a # gs) = (Some (get_datetime a), get_weight a)"
        using h l1 w by simp
      ultimately have "a # gs = [] @ a # gs
             \<and> foldl step_last l (a # gs) = (Some (get_datetime a), get_weight a)
             \<and> (\<forall>x\<in>set []. get_datetime x < get_datetime a)
             \<and> (\<forall>x\<in>set gs. get_datetime x \<le> get_datetime a)
             \<and> later_than (fst l) (get_datetime a)"
        using True by simp
      then show ?thesis by blast
    next
      assume "\<exists>pre g post. gs = pre @ g # post
             \<and> foldl step_last ?l1 gs = (Some (get_datetime g), get_weight g)
             \<and> (\<forall>x\<in>set pre. get_datetime x < get_datetime g)
             \<and> (\<forall>x\<in>set post. get_datetime x \<le> get_datetime g)
             \<and> later_than (fst ?l1) (get_datetime g)"
      then obtain pre g post where p: "gs = pre @ g # post"
        "foldl step_last ?l1 gs = (Some (get_datetime g), get_weight g)"
        "\<forall>x\<in>set pre. get_datetime x < get_datetime g"
        "\<forall>x\<in>set post. get_datetime x \<le> get_datetime g"
        "later_than (fst ?l1) (get_datetime g)" by blast
      have ag: "get_datetime a < get_datetime g" using p(5) by (simp add: l1 later_than_def)
      then have "later_than (fst l) (get_datetime g)"
        using True by (auto simp: later_than_def split: option.splits)
      then have "a # gs = (a # pre) @ g # post
             \<and> foldl step_last l (a # gs) = (Some (get_datetime g), get_weight g)
             \<and> (\<forall>x\<in>set (a # pre). get_datetime x < get_datetime g)
             \<and> (\<forall>x\<in>set post. get_datetime x \<le> get_datetime g)
             \<and> later_than (fst l) (get_datetime g)"
        using p ag by simp
      then show ?thesis by blast
    qed
  next
    case False
    then have l1: "?l1 = l" using w by (simp add: step_last_weight)
    from IH show ?thesis
    proof
      assume "foldl step_last ?l1 gs = ?l1 \<and> (\<forall>x\<in>set gs. \<not> later_than (fst ?l1) (get_datetime x))"
      then show ?thesis using False l1 by simp
    next
      assume "\<exists>pre g post. gs = pre @ g # post
             \<and> foldl step_last ?l1 gs = (Some (get_datetime g), get_weight g)
             \<and> (\<forall>x\<in>set pre. get_datetime x < get_datetime g)
             \<and> (\<forall>x\<in>set post. get_datetime x \<le> get_datetime g)
             \<and> later_than (fst ?l1) (get_datetime g)"
      then obtain pre g post where p: "gs = pre @ g # post"
        "foldl step_last ?l1 gs = (Some (get_datetime g), get_weight g)"
        "\<forall>x\<in>set pre. get_datetime x < get_datetime g"
        "\<forall>x\<in>set post. get_datetime x \<le> get_datetime g"
        "later_than (fst ?l1) (get_datetime g)" by blast
      have ag: "get_datetime a < get_datetime g"
        using p(5) False by (auto simp: l1 later_than_def split: option.splits)
      have "a # gs = (a # pre) @ g # post
             \<and> foldl step_last l (a # gs) = (Some (get_datetime g), get_weight g)
             \<and> (\<forall>x\<in>set (a # pre). get_datetime x < get_datetime g)
             \<and> (\<forall>x\<in>set post. get_datetime x \<le> get_datetime g)
             \<and> later_than (fst l) (get_datetime g)"
        using p ag l1 by simp
      then show ?thesis by blast
    qed
  qed
qed

text \<open>
  C2. After the loop over a non-empty sequence of weight-bearing groups, \<open>last_dt\<close> and
  \<open>last_weight\<close> are the timestamp and the weight of one group \<open>g\<close> of the sequence:
  every group before \<open>g\<close> has a strictly smaller timestamp, every group after it a
  smaller or equal one. So \<open>g\<close> carries the greatest timestamp, and is the first in
  input order to carry it. For the groups (100, 70), (200, 71), (150, 72), in that
  order, the result is the weight 71 at time 200.
\<close>

theorem last_weight_is_first_latest:
  assumes "gs \<noteq> []" and "\<forall>g\<in>set gs. get_weight g \<noteq> None"
  shows "(\<exists>st pre g post.
            encode height gs t = Inr st
          \<and> gs = pre @ g # post
          \<and> last_dt st = Some (get_datetime g)
          \<and> last_weight st = get_weight g
          \<and> (\<forall>x\<in>set pre. get_datetime x < get_datetime g)
          \<and> (\<forall>x\<in>set post. get_datetime x \<le> get_datetime g))
       \<and> (\<exists>st. encode height [weighing 100 70, weighing 200 71, weighing 150 72] t = Inr st
              \<and> last_dt st = Some 200 \<and> last_weight st = Some 71)"
proof
  from assms(1) obtain a where "a \<in> set gs" by (cases gs) auto
  then have "\<not> (\<forall>x\<in>set gs. \<not> later_than (fst (None, None)) (get_datetime x))"
    by (auto simp: later_than_def)
  with foldl_step_last_pick [OF assms(2), of "(None, None)"]
  obtain pre g post where "gs = pre @ g # post"
     "foldl step_last (None, None) gs = (Some (get_datetime g), get_weight g)"
     "\<forall>x\<in>set pre. get_datetime x < get_datetime g"
     "\<forall>x\<in>set post. get_datetime x \<le> get_datetime g"
    by blast
  then show "\<exists>st pre g post.
            encode height gs t = Inr st
          \<and> gs = pre @ g # post
          \<and> last_dt st = Some (get_datetime g)
          \<and> last_weight st = get_weight g
          \<and> (\<forall>x\<in>set pre. get_datetime x < get_datetime g)
          \<and> (\<forall>x\<in>set post. get_datetime x \<le> get_datetime g)"
    by (simp add: encode_eq) blast
next
  show "\<exists>st. encode height [weighing 100 70, weighing 200 71, weighing 150 72] t = Inr st
              \<and> last_dt st = Some 200 \<and> last_weight st = Some 71"
    by (simp add: encode_eq step_last_def weighing_def no_measures_def)
qed

theorem last_weight_is_first_latest_witness:
  "three_groups \<noteq> [] \<and> list_all (\<lambda>g. get_weight g \<noteq> None) three_groups
   \<and> (\<exists>st pre g post.
            encode (Some 1.75) three_groups [] = Inr st
          \<and> three_groups = pre @ g # post
          \<and> last_dt st = Some (get_datetime g)
          \<and> last_weight st = get_weight g
          \<and> (\<forall>x\<in>set pre. get_datetime x < get_datetime g)
          \<and> (\<forall>x\<in>set post. get_datetime x \<le> get_datetime g))
   \<and> (\<exists>st. encode (Some 1.75) three_groups [] = Inr st
           \<and> last_dt st = Some 200 \<and> last_weight st = Some 71)"
proof -
  have ne: "three_groups \<noteq> []" by (simp add: three_groups_def)
  have wb: "\<forall>g\<in>set three_groups. get_weight g \<noteq> None"
    by (simp add: three_groups_def weighing_def)
  have eq: "[weighing 100 70, weighing 200 71, weighing 150 72] = three_groups"
    by (simp add: three_groups_def)
  show ?thesis
    using ne wb last_weight_is_first_latest [OF ne wb, of "Some 1.75" "[]"]
    unfolding eq list_all_iff by blast
qed

subsection \<open>Groups without a weight\<close>

lemma step_last_None: "get_weight g = None \<Longrightarrow> step_last l g = l"
  by (simp add: step_last_def)

lemma group_calls_None: "get_weight g = None \<Longrightarrow> group_calls height g = []"
  by (simp add: group_calls_def)

lemma foldl_step_last_weightless:
  "\<forall>g\<in>set gs. get_weight g = None \<Longrightarrow> foldl step_last l gs = l"
  by (induction gs arbitrary: l) (simp_all add: step_last_None)

lemma emitted_weightless:
  "\<forall>g\<in>set gs. get_weight g = None \<Longrightarrow>
   concat (map (emitted height) gs) = concat (map no_weight_log gs)"
  by (induction gs) (simp_all add: emitted_def)

lemma hands_out_no_weight_log: "e \<in> set (no_weight_log g) \<Longrightarrow> \<not> hands_out e"
  by (auto simp: no_weight_log_def)

lemma hands_out_fetch: "e \<in> set (fetch w a) \<Longrightarrow> \<not> hands_out e"
  by (auto simp: fetch_def Let_def split: option.splits)

lemma fit_calls_fetch: "fit_calls (fetch w a) = []"
  by (simp add: fetch_def Let_def split: option.splits)

lemma fit_new_fetch: "Fit_new \<notin> set (fetch w a)"
  by (simp add: fetch_def Let_def split: option.splits)

lemma buffers_quiet: "\<forall>e\<in>set t. \<not> hands_out e \<Longrightarrow> buffers t = []"
  by (induction t rule: buffers.induct) simp_all

text \<open>
  C3. A group whose weight is \<open>None\<close> adds log lines only: its iteration makes no call
  on the encoder (neither \<open>write_device_info\<close> nor \<open>write_weight_scale\<close>) and returns
  normally. The loop over a sequence that contains such a group returns, makes on the
  encoder exactly the calls of the groups before and after it, as the loop over the
  sequence without that group does, and ends with the same \<open>last_dt\<close> and
  \<open>last_weight\<close>.
\<close>

theorem weightless_group_skipped:
  assumes "get_weight g = None"
  shows "loop_body height g st = Inr (st\<lparr>trace := trace st @ no_weight_log g\<rparr>)
       \<and> fit_calls (no_weight_log g) = []
       \<and> (\<exists>st1 st2.
             for_groups height (pre @ g # post) st = Inr st1
           \<and> for_groups height (pre @ post) st = Inr st2
           \<and> fit_calls (trace st1) = fit_calls (trace st2)
           \<and> fit_calls (trace st1) =
               fit_calls (trace st) @ concat (map (group_calls height) pre)
                                    @ concat (map (group_calls height) post)
           \<and> last_dt st1 = last_dt st2 \<and> last_weight st1 = last_weight st2)"
proof (intro conjI)
  show "loop_body height g st = Inr (st\<lparr>trace := trace st @ no_weight_log g\<rparr>)"
    using assms by (simp add: loop_body_def)
  show "fit_calls (no_weight_log g) = []"
    by (rule fit_calls_no_weight_log)
  have l: "foldl step_last l (pre @ g # post) = foldl step_last l (pre @ post)" for l
    using assms by (simp add: step_last_None)
  have c: "concat (map (group_calls height) (pre @ g # post))
         = concat (map (group_calls height) pre) @ concat (map (group_calls height) post)"
    using assms by (simp add: group_calls_None)
  show "\<exists>st1 st2.
             for_groups height (pre @ g # post) st = Inr st1
           \<and> for_groups height (pre @ post) st = Inr st2
           \<and> fit_calls (trace st1) = fit_calls (trace st2)
           \<and> fit_calls (trace st1) =
               fit_calls (trace st) @ concat (map (group_calls height) pre)
                                    @ concat (map (group_calls height) post)
           \<and> last_dt st1 = last_dt st2 \<and> last_weight st1 = last_weight st2"
    unfolding for_groups_eq using assms
    by (simp add: fit_calls_append fit_calls_concat_emitted fit_calls_emitted
          step_last_None group_calls_None)
qed

theorem weightless_group_skipped_witness:
  "get_weight (no_measures 150) = None
   \<and> (\<exists>st1. for_groups (Some 1.75) ([weighing 100 70] @ no_measures 150 # [weighing 200 71]) init_state = Inr st1
         \<and> device_info_times (fit_calls (trace st1)) = [100, 200]
         \<and> map ws_weight (weight_scale_calls (fit_calls (trace st1))) = [70, 71])"
proof -
  have n: "get_weight (no_measures 150) = None" by (simp add: no_measures_def)
  from weightless_group_skipped [OF n, of "Some 1.75" init_state "[weighing 100 70]" "[weighing 200 71]"]
  obtain st1 where "for_groups (Some 1.75) ([weighing 100 70] @ no_measures 150 # [weighing 200 71]) init_state = Inr st1"
    "fit_calls (trace st1) = fit_calls (trace init_state)
        @ concat (map (group_calls (Some 1.75)) [weighing 100 70])
        @ concat (map (group_calls (Some 1.75)) [weighing 200 71])"
    by blast
  then show ?thesis using n
    by (simp add: init_state_def group_calls_def weighing_def no_measures_def)
qed

text \<open>
  C1. When \<open>getMeasurements\<close> answers \<open>None\<close>, an empty list, or groups that all lack a
  weight, \<open>sync\<close> returns \<open>-1\<close>; \<open>fit.getvalue()\<close> is never called, no buffer reaches
  standard output or Garmin Connect, nothing is sent to TrainerRoad and the bookmark
  is not set. For \<open>None\<close> and the empty list no encoder is even constructed.
\<close>

theorem no_weight_no_output:
  assumes "case getMeasurements w of None \<Rightarrow> True | Some gs \<Rightarrow> \<forall>g\<in>set gs. get_weight g = None"
  shows "\<exists>t. sync w a = Inr (t, Some (- 1))
           \<and> (\<forall>e\<in>set t. \<not> hands_out e)
           \<and> buffers t = []
           \<and> (getMeasurements w = None \<or> getMeasurements w = Some [] \<longrightarrow>
                Fit_new \<notin> set t \<and> fit_calls t = [])"
proof -
  let ?err = "Log ERROR ''No measurements to upload for date or period specified''"
  have early: "\<exists>t. sync w a = Inr (t, Some (- 1))
           \<and> (\<forall>e\<in>set t. \<not> hands_out e)
           \<and> Fit_new \<notin> set t \<and> fit_calls t = []"
    if "sync w a = Inr (fetch w a @ [?err], Some (- 1))"
    using that by (auto simp: fit_calls_append fit_calls_fetch fit_new_fetch dest: hands_out_fetch)
  have main: "\<exists>t. sync w a = Inr (t, Some (- 1))
           \<and> (\<forall>e\<in>set t. \<not> hands_out e)
           \<and> (getMeasurements w = None \<or> getMeasurements w = Some [] \<longrightarrow>
                Fit_new \<notin> set t \<and> fit_calls t = [])"
  proof (cases "getMeasurements w")
    case None
    then have "sync w a = Inr (fetch w a @ [?err], Some (- 1))"
      by (simp add: sync_def Let_def)
    from early [OF this] show ?thesis by blast
  next
    case (Some gs)
    show ?thesis
    proof (cases "gs = []")
      case True
      with Some have "sync w a = Inr (fetch w a @ [?err], Some (- 1))"
        by (simp add: sync_def Let_def)
      from early [OF this] show ?thesis by blast
    next
      case False
      have all: "\<forall>g\<in>set gs. get_weight g = None" using assms Some by simp
      have "sync w a = Inr (deliver w a
          \<lparr>trace = fetch w a @ [Log DEBUG ''Generating fit file...'', Fit_new, Fit Write_file_info,
                       Fit Write_file_creator]
                   @ concat (map no_weight_log gs) @ [Fit Finish],
          last_dt = None, last_weight = None\<rparr>)"
        using Some False
        by (simp add: sync_def Let_def encode_eq foldl_step_last_weightless [OF all]
              emitted_weightless [OF all])
      then show ?thesis using Some False
        by (auto simp: deliver_def dest: hands_out_fetch hands_out_no_weight_log)
    qed
  qed
  then obtain t where t: "sync w a = Inr (t, Some (- 1))" "\<forall>e\<in>set t. \<not> hands_out e"
     "getMeasurements w = None \<or> getMeasurements w = Some [] \<longrightarrow>
                Fit_new \<notin> set t \<and> fit_calls t = []" by blast
  from buffers_quiet [OF t(2)] t show ?thesis by blast
qed

theorem no_weight_no_output_witness:
  "(case getMeasurements (some_world (Some [no_measures 100, no_measures 200])) of
      None \<Rightarrow> True | Some gs \<Rightarrow> \<forall>g\<in>set gs. get_weight g = None)
   \<and> (\<exists>t. sync (some_world (Some [no_measures 100, no_measures 200])) some_args = Inr (t, Some (- 1))
          \<and> (\<forall>e\<in>set t. \<not> hands_out e) \<and> buffers t = [])"
proof -
  have h: "case getMeasurements (some_world (Some [no_measures 100, no_measures 200])) of
      None \<Rightarrow> True | Some gs \<Rightarrow> \<forall>g\<in>set gs. get_weight g = None"
    by (simp add: some_world_def no_measures_def)
  from no_weight_no_output [OF h, of some_args] h show ?thesis by blast
qed

subsection \<open>BMI and hydration percentage\<close>




text \<open>
  C5, as stated, fails. A group with weight \<open>70.0\<close> and hydration mass \<open>0.0\<close> has both
  operands available, and the claim asks for \<open>0.0 * 100 / 70.0 = 0.0\<close>; the test
  \<open>if hydration and weight\<close> of line 138 is false for a zero hydration, and
  \<open>write_weight_scale\<close> is called with \<open>percent_hydration = None\<close>.
\<close>

theorem hydration_absent_though_known_counterexample:
  "loop_body (Some 1.75)
     \<lparr>get_datetime = 100, get_weight = Some 70, get_fat_ratio = None, get_muscle_mass = None,
      get_hydration = Some 0, get_bone_mass = None, get_raw_data = []\<rparr>
     \<lparr>trace = [], last_dt = None, last_weight = None\<rparr>
   = Inr \<lparr>trace = [Fit (Write_device_info 100),
                   Fit (Write_weight_scale
                          \<lparr>ws_timestamp = 100, ws_weight = 70, ws_percent_fat = None,
                           ws_percent_hydration = None, ws_bone_mass = None,
                           ws_muscle_mass = None, ws_bmi = Some 22.9\<rparr>),
                   record_log],
          last_dt = Some 100, last_weight = Some 70\<rparr>
   \<and> percent_hydration_as_specified (Some 0) (Some 70) = Some 0"
proof -
  have "py_round1 (70 / 1.75 ^ 2) = 22.9" by code_simp
  then show ?thesis
    by (simp add: loop_body_def compute_bmi_def compute_percent_hydration_def truthy_def
        percent_hydration_as_specified_def py_truediv_def)
qed

text \<open>
  C5, amended. For a weight-bearing group the hydration percentage handed to
  \<open>write_weight_scale\<close> is \<open>hydration * 100 / weight\<close> exactly when the hydration mass
  is known and neither it nor the weight is zero; it is \<open>None\<close> otherwise.
\<close>

theorem percent_hydration_passed_to_encoder:
  assumes "get_weight g = Some w"
  shows "(\<exists>st' r. loop_body height g st = Inr st'
            \<and> fit_calls (trace st') =
                fit_calls (trace st) @ [Write_device_info (get_datetime g), Write_weight_scale r]
            \<and> ws_percent_hydration r =
                (case get_hydration g of
                   None \<Rightarrow> None
                 | Some hy \<Rightarrow> if hy \<noteq> 0 \<and> w \<noteq> 0 then Some (hy * 100 / w) else None))"
  using assms
  by (simp add: loop_body_eq fit_calls_append fit_calls_emitted group_calls_def
        percent_hydration_of_def split: option.splits)

text \<open>
  The amended C5 at weight 70.0 and hydration mass 35.0: the percentage is 50.
\<close>

theorem percent_hydration_passed_to_encoder_witness:
  "get_weight ((weighing 100 70)\<lparr>get_hydration := Some 35\<rparr>) = Some 70
   \<and> (\<exists>st' r. loop_body (Some 1.75) ((weighing 100 70)\<lparr>get_hydration := Some 35\<rparr>) init_state = Inr st'
          \<and> fit_calls (trace st') = [Write_device_info 100, Write_weight_scale r]
          \<and> ws_percent_hydration r = Some 50)"
proof -
  have h: "get_weight ((weighing 100 70)\<lparr>get_hydration := Some 35\<rparr>) = Some 70"
    by (simp add: weighing_def)
  from percent_hydration_passed_to_encoder [OF h, of "Some 1.75" init_state]
  show ?thesis using h
    by (simp add: init_state_def weighing_def no_measures_def)
qed

subsection \<open>The run as a whole\<close>

lemma sync_nonempty:
  "getMeasurements w = Some gs \<Longrightarrow> gs \<noteq> [] \<Longrightarrow>
   sync w a = Inr (deliver w a (encoded_state w a gs))"
  by (simp add: sync_def Let_def encode_eq encoded_state_def)

lemma sync_early:
  "getMeasurements w = None \<or> getMeasurements w = Some [] \<Longrightarrow>
   sync w a = Inr (fetch w a @ [Log ERROR ''No measurements to upload for date or period specified''],
                   Some (- 1))"
  by (auto simp: sync_def Let_def)

lemma snd_foldl_step_last_Some:
  "snd l \<noteq> None \<Longrightarrow> snd (foldl step_last l gs) \<noteq> None"
  by (induction gs arbitrary: l) (auto simp: step_last_def split: option.splits)

lemma last_weight_None_iff:
  "snd (foldl step_last (None, None) gs) = None \<longleftrightarrow> (\<forall>g\<in>set gs. get_weight g = None)"
proof
  assume n: "snd (foldl step_last (None, None) gs) = None"
  show "\<forall>g\<in>set gs. get_weight g = None"
  proof (rule ccontr)
    assume "\<not> (\<forall>g\<in>set gs. get_weight g = None)"
    then have "\<exists>g\<in>set gs. get_weight g \<noteq> None" by blast
    then obtain pre g post where s: "gs = pre @ g # post" "get_weight g \<noteq> None"
      "\<forall>x\<in>set pre. \<not> get_weight x \<noteq> None"
      using split_list_first_prop [of gs "\<lambda>g. get_weight g \<noteq> None"] by blast
    then obtain v where v: "get_weight g = Some v" by auto
    have "foldl step_last (None, None) pre = (None, None)"
      using s(3) by (simp add: foldl_step_last_weightless)
    then have "foldl step_last (None, None) gs
             = foldl step_last (Some (get_datetime g), Some v) post"
      using s(1) v by (simp add: step_last_def)
    then show False using n snd_foldl_step_last_Some [of "(Some (get_datetime g), Some v)" post]
      by simp
  qed
next
  assume "\<forall>g\<in>set gs. get_weight g = None"
  then show "snd (foldl step_last (None, None) gs) = None"
    by (simp add: foldl_step_last_weightless)
qed

lemma fit_io_fetch: "filter fit_io (fetch w a) = []"
  by (simp add: fetch_def Let_def split: option.splits)

lemma fit_io_map_Log: "filter fit_io (map (Log l) ms) = []"
  by (induction ms) simp_all

lemma fit_io_map_Fit: "filter fit_io (map Fit cs) = map Fit cs"
  by (induction cs) simp_all

lemma fit_io_emitted: "filter fit_io (emitted height g) = map Fit (group_calls height g)"
  by (cases "get_weight g")
     (simp_all add: emitted_def group_calls_def no_weight_log_def fit_io_map_Log record_log_def)

lemma fit_io_concat_emitted:
  "filter fit_io (concat (map (emitted height) gs))
   = map Fit (concat (map (group_calls height) gs))"
  by (induction gs) (simp_all add: fit_io_emitted)

lemma group_calls_filter:
  "concat (map (group_calls height) (filter weight_bearing gs))
   = concat (map (group_calls height) gs)"
  by (induction gs) (simp_all add: weight_bearing_def group_calls_None)

lemma fit_calls_encoded_state:
  "fit_calls (trace (encoded_state w a gs)) = encoding_calls (getHeight w) gs"
  by (simp add: encoded_state_def encoding_calls_def fit_calls_append fit_calls_fetch
        fit_calls_concat_emitted group_calls_filter)

lemma fit_io_encoded_state:
  "filter fit_io (trace (encoded_state w a gs)) = Fit_new # map Fit (encoding_calls (getHeight w) gs)"
  by (simp add: encoded_state_def encoding_calls_def fit_io_fetch fit_io_concat_emitted
        group_calls_filter)

lemma deliver_fit_io:
  "filter fit_io (fst (deliver w a st))
   = filter fit_io (trace st) @
     (case last_weight st of
        None \<Rightarrow> []
      | Some lw \<Rightarrow>
          if no_upload a then [Fit Getvalue, Stdout_write (getvalue w (fit_calls (trace st)))]
          else if truthy_str (garmin_username a)
          then [Fit Getvalue, Garmin_upload (getvalue w (fit_calls (trace st)))]
          else [])"
  by (simp add: deliver_def Let_def fit_calls_append split: option.splits)

lemma sync_fit_io:
  assumes "getMeasurements w = Some gs" and "gs \<noteq> []"
  shows "\<exists>t r. sync w a = Inr (t, r)
           \<and> filter fit_io t = Fit_new # map Fit (encoding_calls (getHeight w) gs) @ read_out w a gs"
proof -
  let ?st = "encoded_state w a gs"
  have lw: "last_weight ?st = None \<longleftrightarrow> (\<forall>g\<in>set gs. get_weight g = None)"
    by (simp add: encoded_state_def last_weight_None_iff)
  have "filter fit_io (fst (deliver w a ?st))
        = Fit_new # map Fit (encoding_calls (getHeight w) gs) @ read_out w a gs"
    unfolding deliver_fit_io fit_io_encoded_state fit_calls_encoded_state read_out_def
    using lw by (cases "last_weight ?st") auto
  moreover have "sync w a = Inr (fst (deliver w a ?st), snd (deliver w a ?st))"
    using sync_nonempty [OF assms] by simp
  ultimately show ?thesis by blast
qed

subsection \<open>The sequence of encoder calls\<close>

lemma fit_calls_filter_fit_io: "fit_calls (filter fit_io t) = fit_calls t"
  by (induction t rule: fit_calls.induct) simp_all

lemma buffers_filter_fit_io: "buffers (filter fit_io t) = buffers t"
  by (induction t rule: buffers.induct) simp_all

lemma buffers_map_Fit: "buffers (map Fit cs) = []"
  by (induction cs) simp_all

lemma buffers_append: "buffers (xs @ ys) = buffers xs @ buffers ys"
  by (induction xs rule: buffers.induct) simp_all

lemma device_info_times_append:
  "device_info_times (xs @ ys) = device_info_times xs @ device_info_times ys"
  by (induction xs rule: device_info_times.induct) simp_all

lemma weight_scale_calls_append:
  "weight_scale_calls (xs @ ys) = weight_scale_calls xs @ weight_scale_calls ys"
  by (induction xs rule: weight_scale_calls.induct) simp_all

lemma device_info_times_groups:
  "device_info_times (concat (map (group_calls height) (filter weight_bearing gs)))
   = map get_datetime (filter weight_bearing gs)"
  by (induction gs) (auto simp: weight_bearing_def group_calls_def)

lemma weight_scale_times_groups:
  "map ws_timestamp (weight_scale_calls (concat (map (group_calls height) (filter weight_bearing gs))))
   = map get_datetime (filter weight_bearing gs)"
  by (induction gs) (auto simp: weight_bearing_def group_calls_def)

lemma enc_run_append:
  "enc_run s (xs @ ys) = (case enc_run s xs of Inl e \<Rightarrow> Inl e | Inr s' \<Rightarrow> enc_run s' ys)"
  by (induction xs arbitrary: s) (simp_all split: sum.splits)

lemma enc_run_group_calls: "enc_run Building (group_calls height g) = Inr Building"
  by (cases "get_weight g") (simp_all add: group_calls_def enc_step_def)

lemma enc_run_groups:
  "enc_run Building (concat (map (group_calls height) gs)) = Inr Building"
  by (induction gs) (simp_all add: enc_run_append enc_run_group_calls)

lemma enc_run_encoding_calls: "enc_run Empty (encoding_calls height gs) = Inr Finalized"
  by (simp add: encoding_calls_def enc_step_def enc_run_append enc_run_groups)

lemma fit_calls_read_out:
  "fit_calls (read_out w a gs) = [] \<or> fit_calls (read_out w a gs) = [Getvalue]"
  by (simp add: read_out_def)




lemma sync_fit_calls:
  assumes "getMeasurements w = Some gs" and "gs \<noteq> []"
  shows "\<exists>t r. sync w a = Inr (t, r)
           \<and> fit_calls t = encoding_calls (getHeight w) gs @ fit_calls (read_out w a gs)
           \<and> buffers t = buffers (read_out w a gs)"
proof -
  from sync_fit_io [OF assms, of a] obtain t r where t: "sync w a = Inr (t, r)"
    "filter fit_io t = Fit_new # map Fit (encoding_calls (getHeight w) gs) @ read_out w a gs"
    by blast
  have "fit_calls (filter fit_io t)
        = encoding_calls (getHeight w) gs @ fit_calls (read_out w a gs)"
    unfolding t(2) by (simp add: fit_calls_append fit_calls_map_Fit)
  moreover have "buffers (filter fit_io t) = buffers (read_out w a gs)"
    unfolding t(2) by (simp add: buffers_append buffers_map_Fit)
  ultimately show ?thesis using t(1)
    by (simp add: fit_calls_filter_fit_io buffers_filter_fit_io)
qed

text \<open>
  C6. In a run that reaches the encoding (a non-empty list of groups), the encoder and
  the sinks of its buffer see, in this order: the construction, \<open>write_file_info\<close>,
  \<open>write_file_creator\<close>, for each weight-bearing group in input order a
  \<open>write_device_info\<close> immediately followed by a \<open>write_weight_scale\<close> with that
  group's timestamp and values, one \<open>finish\<close>, and then either nothing or one
  \<open>getvalue\<close> immediately followed by the write to standard output or the upload to
  Garmin Connect that receives the buffer.
\<close>

theorem encoder_calls_in_sequence:
  assumes "getMeasurements w = Some gs" and "gs \<noteq> []"
  shows "(\<exists>t r. sync w a = Inr (t, r)
           \<and> filter fit_io t =
               [Fit_new, Fit Write_file_info, Fit Write_file_creator]
               @ map Fit (concat (map (group_calls (getHeight w)) (filter weight_bearing gs)))
               @ [Fit Finish]
               @ read_out w a gs)
       \<and> (\<forall>g\<in>set gs. weight_bearing g \<longrightarrow>
             (\<exists>r. group_calls (getHeight w) g = [Write_device_info (get_datetime g), Write_weight_scale r]
                \<and> ws_timestamp r = get_datetime g
                \<and> Some (ws_weight r) = get_weight g
                \<and> ws_percent_fat r = get_fat_ratio g
                \<and> ws_percent_hydration r = percent_hydration_of (get_hydration g) (ws_weight r)
                \<and> ws_bone_mass r = get_bone_mass g
                \<and> ws_muscle_mass r = get_muscle_mass g
                \<and> ws_bmi r = bmi_of (getHeight w) (ws_weight r)))"
proof
  from sync_fit_io [OF assms, of a]
  show "\<exists>t r. sync w a = Inr (t, r)
           \<and> filter fit_io t =
               [Fit_new, Fit Write_file_info, Fit Write_file_creator]
               @ map Fit (concat (map (group_calls (getHeight w)) (filter weight_bearing gs)))
               @ [Fit Finish]
               @ read_out w a gs"
    by (simp add: encoding_calls_def)
next
  show "\<forall>g\<in>set gs. weight_bearing g \<longrightarrow>
             (\<exists>r. group_calls (getHeight w) g = [Write_device_info (get_datetime g), Write_weight_scale r]
                \<and> ws_timestamp r = get_datetime g
                \<and> Some (ws_weight r) = get_weight g
                \<and> ws_percent_fat r = get_fat_ratio g
                \<and> ws_percent_hydration r = percent_hydration_of (get_hydration g) (ws_weight r)
                \<and> ws_bone_mass r = get_bone_mass g
                \<and> ws_muscle_mass r = get_muscle_mass g
                \<and> ws_bmi r = bmi_of (getHeight w) (ws_weight r))"
    by (auto simp: weight_bearing_def group_calls_def)
qed

text \<open>
  C6 at a run over one weighing and one group without weight, uploading to Garmin.
\<close>

theorem encoder_calls_in_sequence_witness:
  "getMeasurements (some_world (Some [weighing 100 70, no_measures 150])) = Some [weighing 100 70, no_measures 150]
   \<and> [weighing 100 70, no_measures 150] \<noteq> []
   \<and> weight_bearing (weighing 100 70)
   \<and> (\<exists>t r. sync (some_world (Some [weighing 100 70, no_measures 150])) some_args = Inr (t, r)
         \<and> filter fit_io t =
             [Fit_new, Fit Write_file_info, Fit Write_file_creator,
              Fit (Write_device_info 100),
              Fit (Write_weight_scale
                     \<lparr>ws_timestamp = 100, ws_weight = 70, ws_percent_fat = None,
                      ws_percent_hydration = None, ws_bone_mass = None,
                      ws_muscle_mass = None, ws_bmi = Some 22.9\<rparr>),
              Fit Finish, Fit Getvalue, Garmin_upload []])"
proof -
  let ?gs = "[weighing 100 70, no_measures 150]"
  have m: "getMeasurements (some_world (Some ?gs)) = Some ?gs" by (simp add: some_world_def)
  have ne: "?gs \<noteq> []" by simp
  have wb: "weight_bearing (weighing 100 70)" by (simp add: weight_bearing_def weighing_def)
  have v: "py_round1 (70 / 1.75 ^ 2) = 22.9" by code_simp
  have f: "filter weight_bearing ?gs = [weighing 100 70]"
    by (simp add: weight_bearing_def weighing_def no_measures_def)
  have c: "group_calls (Some 1.75) (weighing 100 70) =
      [Write_device_info 100,
       Write_weight_scale
                     \<lparr>ws_timestamp = 100, ws_weight = 70, ws_percent_fat = None,
                      ws_percent_hydration = None, ws_bone_mass = None,
                      ws_muscle_mass = None, ws_bmi = Some 22.9\<rparr>]"
    using v by (simp add: group_calls_def weighing_def no_measures_def bmi_of_def
          percent_hydration_of_def)
  have r: "read_out (some_world (Some ?gs)) some_args ?gs = [Fit Getvalue, Garmin_upload []]"
    by (simp add: read_out_def some_world_def some_args_def truthy_str_def weighing_def)
  have h: "getHeight (some_world (Some ?gs)) = Some 1.75" by (simp add: some_world_def)
  from encoder_calls_in_sequence [OF m ne, of some_args, THEN conjunct1]
  show ?thesis unfolding f r h using c m wb by simp
qed

text \<open>
  C7. In a run that reaches the encoding, the \<open>write_device_info\<close> calls are, in order,
  one per weight-bearing group with that group's timestamp, as are the
  \<open>write_weight_scale\<close> calls: one device-info per weight-scale record. The encoder of
  the specification accepts the whole sequence of calls, the repeated device-infos
  included, without an invalid-state error, and ends \<open>Finalized\<close>.
\<close>

theorem device_info_once_per_record:
  assumes "getMeasurements w = Some gs" and "gs \<noteq> []"
  shows "\<exists>t r. sync w a = Inr (t, r)
           \<and> device_info_times (fit_calls t) = map get_datetime (filter weight_bearing gs)
           \<and> map ws_timestamp (weight_scale_calls (fit_calls t))
               = map get_datetime (filter weight_bearing gs)
           \<and> enc_run Empty (fit_calls t) = Inr Finalized"
proof -
  from sync_fit_calls [OF assms, of a] obtain t r where t: "sync w a = Inr (t, r)"
    "fit_calls t = encoding_calls (getHeight w) gs @ fit_calls (read_out w a gs)"
    by blast
  have ro: "fit_calls (read_out w a gs) = [] \<or> fit_calls (read_out w a gs) = [Getvalue]"
    by (rule fit_calls_read_out)
  have "device_info_times (fit_calls t) = map get_datetime (filter weight_bearing gs)"
    unfolding t(2) using ro
    by (auto simp: device_info_times_append encoding_calls_def device_info_times_groups)
  moreover have "map ws_timestamp (weight_scale_calls (fit_calls t))
               = map get_datetime (filter weight_bearing gs)"
    unfolding t(2) using ro
    by (auto simp: weight_scale_calls_append encoding_calls_def weight_scale_times_groups)
  moreover have "enc_run Empty (fit_calls t) = Inr Finalized"
    unfolding t(2) using ro
    by (auto simp: enc_run_append enc_run_encoding_calls enc_step_def)
  ultimately show ?thesis using t(1) by blast
qed

text \<open>
  C7 at a run over the three weighings at 100, 200 and 150.
\<close>

theorem device_info_once_per_record_witness:
  "getMeasurements (some_world (Some three_groups)) = Some three_groups
   \<and> three_groups \<noteq> []
   \<and> (\<exists>t r. sync (some_world (Some three_groups)) some_args = Inr (t, r)
         \<and> device_info_times (fit_calls t) = [100, 200, 150]
         \<and> map ws_timestamp (weight_scale_calls (fit_calls t)) = [100, 200, 150]
         \<and> enc_run Empty (fit_calls t) = Inr Finalized)"
proof -
  have m: "getMeasurements (some_world (Some three_groups)) = Some three_groups"
    by (simp add: some_world_def)
  have ne: "three_groups \<noteq> []" by (simp add: three_groups_def)
  have f: "map get_datetime (filter weight_bearing three_groups) = [100, 200, 150]"
    by (simp add: three_groups_def weight_bearing_def weighing_def no_measures_def)
  from device_info_once_per_record [OF m ne, of some_args]
  show ?thesis unfolding f using m ne by simp
qed

subsection \<open>Two runs on the same groups\<close>

lemma hands_out_emitted: "e \<in> set (emitted height g) \<Longrightarrow> \<not> hands_out e"
  by (cases "get_weight g")
     (auto simp: emitted_def group_calls_def record_log_def dest: hands_out_no_weight_log)

lemma quiet_encoded_state: "e \<in> set (trace (encoded_state w a gs)) \<Longrightarrow> \<not> hands_out e"
  by (auto simp: encoded_state_def dest: hands_out_fetch hands_out_emitted)

lemma writes_append: "writes (xs @ ys) = writes xs @ writes ys"
  by (simp add: writes_def fit_calls_append)





subsection \<open>The bookmark\<close>

lemma deliver_bookmark:
  assumes "\<And>e. e \<in> set (trace st) \<Longrightarrow> \<not> hands_out e"
  shows "Set_last_sync \<in> set (fst (deliver w a st)) \<longleftrightarrow>
           last_weight st \<noteq> None \<and> \<not> no_upload a \<and> truthy_str (garmin_username a)
           \<and> upload_file w \<and> fromdate a = None"
    and "(\<exists>b. Garmin_upload b \<in> set (fst (deliver w a st))) \<longleftrightarrow>
           last_weight st \<noteq> None \<and> \<not> no_upload a \<and> truthy_str (garmin_username a)"
    and "count_list (fst (deliver w a st)) Set_last_sync \<le> 1"
proof -
  have s: "Set_last_sync \<notin> set (trace st)" using assms [of Set_last_sync] by auto
  have g: "Garmin_upload b \<notin> set (trace st)" for b using assms [of "Garmin_upload b"] by auto
  have c: "count_list (trace st) Set_last_sync = 0" using s by (simp add: count_list_0_iff)
  show "Set_last_sync \<in> set (fst (deliver w a st)) \<longleftrightarrow>
           last_weight st \<noteq> None \<and> \<not> no_upload a \<and> truthy_str (garmin_username a)
           \<and> upload_file w \<and> fromdate a = None"
    using s by (cases "last_weight st") (simp_all add: deliver_def Let_def)
  show "(\<exists>b. Garmin_upload b \<in> set (fst (deliver w a st))) \<longleftrightarrow>
           last_weight st \<noteq> None \<and> \<not> no_upload a \<and> truthy_str (garmin_username a)"
    using g by (cases "last_weight st") (simp_all add: deliver_def Let_def)
  show "count_list (fst (deliver w a st)) Set_last_sync \<le> 1"
    using c by (cases "last_weight st") (simp_all add: deliver_def Let_def)
qed

text \<open>
  C10. \<open>withings.setLastSync()\<close> is the only call of \<open>sync\<close> that changes the stored
  bookmark (\<open>getLastSync\<close> reads it). It is made at most once, and only when no
  \<open>fromdate\<close> was given and the Garmin upload took place and returned a true value;
  precisely, it is made exactly in the runs without \<open>fromdate\<close> and without
  \<open>no_upload\<close>, with a Garmin user name, at least one weight-bearing group, and a
  successful upload. In every other run it is not made.
\<close>

theorem bookmark_set_only_after_successful_upload:
  "\<exists>t r. sync w a = Inr (t, r)
       \<and> (Set_last_sync \<in> set t \<longrightarrow>
            fromdate a = None \<and> upload_file w \<and> (\<exists>b. Garmin_upload b \<in> set t))
       \<and> (Set_last_sync \<in> set t \<longleftrightarrow>
            fromdate a = None \<and> upload_file w \<and> truthy_str (garmin_username a)
            \<and> \<not> no_upload a
            \<and> (\<exists>gs. getMeasurements w = Some gs \<and> (\<exists>g\<in>set gs. get_weight g \<noteq> None)))
       \<and> count_list t Set_last_sync \<le> 1"
proof (cases "getMeasurements w = None \<or> getMeasurements w = Some []")
  case True
  let ?t = "fetch w a @ [Log ERROR ''No measurements to upload for date or period specified'']"
  have q: "\<forall>e\<in>set ?t. \<not> hands_out e" by (auto dest: hands_out_fetch)
  have s: "Set_last_sync \<notin> set ?t" using q by auto
  then have "count_list ?t Set_last_sync = 0" by (simp add: count_list_0_iff)
  with s show ?thesis using sync_early [OF True, of a] True by auto
next
  case False
  then obtain gs where gs: "getMeasurements w = Some gs" "gs \<noteq> []" by auto
  let ?st = "encoded_state w a gs"
  let ?t = "fst (deliver w a ?st)"
  have q: "\<And>e. e \<in> set (trace ?st) \<Longrightarrow> \<not> hands_out e"
    by (rule quiet_encoded_state)
  have lw: "last_weight ?st \<noteq> None \<longleftrightarrow> (\<exists>g\<in>set gs. get_weight g \<noteq> None)"
    using last_weight_None_iff [of gs] by (simp add: encoded_state_def)
  have "sync w a = Inr (?t, snd (deliver w a ?st))"
    using sync_nonempty [OF gs] by simp
  moreover have "Set_last_sync \<in> set ?t \<longrightarrow>
            fromdate a = None \<and> upload_file w \<and> (\<exists>b. Garmin_upload b \<in> set ?t)"
    using deliver_bookmark(1,2) [of ?st w a, OF q] by blast
  moreover have "Set_last_sync \<in> set ?t \<longleftrightarrow>
            fromdate a = None \<and> upload_file w \<and> truthy_str (garmin_username a)
            \<and> \<not> no_upload a
            \<and> (\<exists>gs. getMeasurements w = Some gs \<and> (\<exists>g\<in>set gs. get_weight g \<noteq> None))"
    using deliver_bookmark(1) [of ?st w a, OF q] lw gs by auto
  moreover have "count_list ?t Set_last_sync \<le> 1"
    using deliver_bookmark(3) [of ?st w a, OF q] .
  ultimately show ?thesis by blast
qed

text \<open>
  C10 at a run over the three weighings with a Garmin user name, no \<open>fromdate\<close> and a
  successful upload: the bookmark is set.
\<close>

theorem bookmark_set_only_after_successful_upload_witness:
  "(\<exists>t r. sync (some_world (Some three_groups)) some_args = Inr (t, r)
       \<and> Set_last_sync \<in> set t
       \<and> fromdate some_args = None \<and> upload_file (some_world (Some three_groups))
       \<and> (\<exists>b. Garmin_upload b \<in> set t)
       \<and> count_list t Set_last_sync \<le> 1)"
proof -
  have "\<exists>g\<in>set three_groups. get_weight g \<noteq> None"
    by (simp add: three_groups_def weighing_def)
  then have "fromdate some_args = None \<and> upload_file (some_world (Some three_groups))
      \<and> truthy_str (garmin_username some_args) \<and> \<not> no_upload some_args
      \<and> (\<exists>gs. getMeasurements (some_world (Some three_groups)) = Some gs
             \<and> (\<exists>g\<in>set gs. get_weight g \<noteq> None))"
    by (simp add: some_args_def some_world_def truthy_str_def)
  with bookmark_set_only_after_successful_upload [of "some_world (Some three_groups)" some_args]
  show ?thesis by blast
qed

end
